theory Spec2Isabelle
  imports Main "HOL-Library.Char_ord" "HOL-Library.List_Lexorder"
begin

section \<open>Strings, vectors and ordered maps of the C++ standard library\<close>

text \<open>
  A \<^verbatim>\<open>std::string\<close> is a sequence of bytes, here a \<^typ>\<open>string\<close>; its
  \<^verbatim>\<open>operator<\<close> compares bytes as unsigned values, lexicographically, which is the
  order of \<^typ>\<open>char list\<close> under \<open>Char_ord\<close> and \<open>List_Lexorder\<close>. A
  \<^verbatim>\<open>SearchableVector<std::string>\<close> is a \<^typ>\<open>string list\<close>.

  The C string that \<^verbatim>\<open>s.c_str()\<close> hands to C code, and that \<^verbatim>\<open>strdup\<close> copies,
  ends before the first NUL byte of \<open>s\<close>.
\<close>

definition c_str :: "string \<Rightarrow> string" where
  "c_str s = takeWhile (\<lambda>c. c \<noteq> CHR 0x00) s"

text \<open>
  A \<^verbatim>\<open>std::map<std::string, V>\<close> is the list of its (key, value) pairs in the order its
  iterator visits them: ascending keys, no key twice (\<open>std_map_inv\<close>).
\<close>

type_synonym 'v std_map = "(string \<times> 'v) list"

definition std_map_inv :: "'v std_map \<Rightarrow> bool" where
  "std_map_inv m = sorted_wrt (<) (map fst m)"

definition std_map_keys :: "'v std_map \<Rightarrow> string list" where
  "std_map_keys m = map fst m"

text \<open>\<^verbatim>\<open>m.find(k)\<close>: \<open>None\<close> stands for \<^verbatim>\<open>m.end()\<close>.\<close>

definition std_map_find :: "'v std_map \<Rightarrow> string \<Rightarrow> 'v option" where
  "std_map_find m k = map_of m k"

definition std_map_count :: "'v std_map \<Rightarrow> string \<Rightarrow> nat" where
  "std_map_count m k = (case std_map_find m k of None \<Rightarrow> 0 | Some _ \<Rightarrow> 1)"

text \<open>
  \<^verbatim>\<open>m[k] = v\<close>: the value of \<open>k\<close> is overwritten in place, or the pair is inserted
  where the key order puts it.
\<close>

fun std_map_assign :: "string \<Rightarrow> 'v \<Rightarrow> 'v std_map \<Rightarrow> 'v std_map" where
  "std_map_assign k v [] = [(k, v)]"
| "std_map_assign k v (p # m) =
     (if fst p = k then (k, v) # m
      else if k < fst p then (k, v) # p # m
      else p # std_map_assign k v m)"

text \<open>
  \<^verbatim>\<open>m[k]\<close> read as a value: the value found, or the value-initialised \<open>dflt\<close>, which
  \<^verbatim>\<open>operator[]\<close> then inserts under \<open>k\<close>. The map after the access is returned too.
\<close>

definition std_map_index :: "'v \<Rightarrow> 'v std_map \<Rightarrow> string \<Rightarrow> 'v \<times> 'v std_map" where
  "std_map_index dflt m k =
     (case std_map_find m k of
        Some v \<Rightarrow> (v, m)
      | None \<Rightarrow> (dflt, std_map_assign k dflt m))"

text \<open>\<^verbatim>\<open>m.erase(k)\<close>.\<close>

definition std_map_erase :: "string \<Rightarrow> 'v std_map \<Rightarrow> 'v std_map" where
  "std_map_erase k m = filter (\<lambda>p. fst p \<noteq> k) m"

section \<open>The entry\<close>

text \<open>
  The fields of \<^verbatim>\<open>LDAPEntry\<close>, without their leading underscore. \<^verbatim>\<open>_data\<close> maps an
  attribute to its vector of values; \<^verbatim>\<open>_added\<close> and \<^verbatim>\<open>_removed\<close> map an attribute to
  a pointer to a heap-allocated vector, \<open>None\<close> being the null pointer. Every vector has
  one owner, so the pointer is modelled by what it points to. The connection
  \<^verbatim>\<open>_conn\<close> is the parameter \<open>ldap\<close> of \<open>Sync\<close>.
\<close>

record LDAPEntry =
  dn :: string
  data :: "string list std_map"
  added :: "string list option std_map"
  removed :: "string list option std_map"
  isnew :: bool

text \<open>
  What can go wrong: the exception \<^verbatim>\<open>LDAPException\<close> with the code of libldap, and
  two undefined behaviours of C++, calling a method through a null pointer and
  \<^verbatim>\<open>front()\<close> of an empty vector.
\<close>

datatype fault =
    LDAPException int
  | Null_pointer_dereference
  | Front_of_empty_vector

subsection \<open>Constructors\<close>

text \<open>\<^verbatim>\<open>LDAPEntry(LDAPConnection* conn, std::string dn)\<close>\<close>

definition LDAPEntry_new :: "string \<Rightarrow> LDAPEntry" where
  "LDAPEntry_new d = \<lparr>dn = d, data = [], added = [], removed = [], isnew = True\<rparr>"

text \<open>
  \<^verbatim>\<open>LDAPEntry(LDAPConnection* conn, LDAPMessage* entry)\<close>. The message is what libldap
  reads out of it: the result \<open>d\<close> of \<^verbatim>\<open>ldap_get_dn\<close> and, in the order of
  \<^verbatim>\<open>ldap_first_attribute\<close> and \<^verbatim>\<open>ldap_next_attribute\<close>, each attribute with the
  values of \<^verbatim>\<open>ldap_get_values_len\<close>. The loop stores \<^verbatim>\<open>_data[attr] = values\<close>.
\<close>

definition LDAPEntry_of_message :: "string \<Rightarrow> (string \<times> string list) list \<Rightarrow> LDAPEntry" where
  "LDAPEntry_of_message d attrs =
     \<lparr>dn = d,
      data = foldl (\<lambda>m (attr, values). std_map_assign attr values m) [] attrs,
      added = [], removed = [], isnew = False\<rparr>"

subsection \<open>Queries\<close>

definition GetDN :: "LDAPEntry \<Rightarrow> string" where
  "GetDN e = dn e"

text \<open>The loop pushes \<^verbatim>\<open>(*iter).first\<close> of every pair of \<^verbatim>\<open>_data\<close>.\<close>

definition GetKeys :: "LDAPEntry \<Rightarrow> string list" where
  "GetKeys e = foldl (\<lambda>rv p. rv @ [fst p]) [] (data e)"

text \<open>
  \<^verbatim>\<open>return _data[attribute];\<close> The method is not const: the entry after the call is the
  second component.
\<close>

definition GetValue :: "string \<Rightarrow> LDAPEntry \<Rightarrow> string list \<times> LDAPEntry" where
  "GetValue attribute e =
     (let (vs, d) = std_map_index [] (data e) attribute
      in (vs, e\<lparr>data := d\<rparr>))"

definition GetFirstValue :: "string \<Rightarrow> LDAPEntry \<Rightarrow> (fault + string) \<times> LDAPEntry" where
  "GetFirstValue attribute e =
     (if std_map_find (data e) attribute = None then (Inr '''', e)
      else
        let (vs, d) = std_map_index [] (data e) attribute
        in (case vs of
              [] \<Rightarrow> Inl Front_of_empty_vector
            | v # _ \<Rightarrow> Inr v,
            e\<lparr>data := d\<rparr>))"

subsection \<open>Edits\<close>

text \<open>
  The three statements that \<open>AddValue\<close>, \<open>RemoveValue\<close> and \<open>RemoveAllValues\<close> share,
  on \<^verbatim>\<open>_added\<close> or \<^verbatim>\<open>_removed\<close>:
  \<^verbatim>\<open>if (m[attribute] == 0) m[attribute] = new SearchableVector<std::string>;
  m[attribute]->push_back(value);\<close>
  The test reads \<^verbatim>\<open>m[attribute]\<close>, which inserts a null pointer when the key is
  absent; a null pointer is replaced by a new, empty vector; the value is pushed onto
  the vector the key then points to.
\<close>

definition push_back_at :: "string \<Rightarrow> string \<Rightarrow> string list option std_map \<Rightarrow> string list option std_map" where
  "push_back_at attribute value m =
     (let (p, m1) = std_map_index None m attribute;
          vs = (case p of None \<Rightarrow> [] | Some ws \<Rightarrow> ws)
      in std_map_assign attribute (Some (vs @ [value])) m1)"

definition AddValue :: "string \<Rightarrow> string \<Rightarrow> LDAPEntry \<Rightarrow> LDAPEntry" where
  "AddValue attribute value e =
     (let (vs, d) = std_map_index [] (data e) attribute
      in e\<lparr>data := std_map_assign attribute (vs @ [value]) d,
            added := push_back_at attribute value (added e)\<rparr>)"

text \<open>
  The loop of \<open>RemoveValue\<close> visits every element of \<^verbatim>\<open>_data[attribute]\<close> and, where
  \<^verbatim>\<open>compare\<close> returns 0 (equal strings), pushes \<open>value\<close> onto
  \<^verbatim>\<open>_removed[attribute]\<close>. It erases nothing from the vector it visits. After the
  loop the key is erased from \<^verbatim>\<open>_data\<close> if its vector is empty.
\<close>

definition RemoveValue :: "string \<Rightarrow> string \<Rightarrow> LDAPEntry \<Rightarrow> LDAPEntry" where
  "RemoveValue attribute value e =
     (if std_map_count (data e) attribute = 0 then e
      else
        let (vs, d1) = std_map_index [] (data e) attribute;
            r = foldl (\<lambda>r x. if x = value then push_back_at attribute value r else r)
                  (removed e) vs;
            (vs', d2) = std_map_index [] d1 attribute
        in if vs' = [] then e\<lparr>data := std_map_erase attribute d2, removed := r\<rparr>
           else e\<lparr>data := d2, removed := r\<rparr>)"

definition RemoveAllValues :: "string \<Rightarrow> LDAPEntry \<Rightarrow> LDAPEntry" where
  "RemoveAllValues attribute e =
     (if std_map_count (data e) attribute = 0 then e
      else
        let (vs, d1) = std_map_index [] (data e) attribute;
            r = foldl (\<lambda>r x. push_back_at attribute x r) (removed e) vs
        in e\<lparr>data := std_map_erase attribute d1, removed := r\<rparr>)"

subsection \<open>Sync\<close>

text \<open>
  The \<^verbatim>\<open>LDAPMod\<close> of libldap as \<open>Sync\<close> fills it: the operation, the attribute and
  the null-terminated array of values, each a C string made by \<^verbatim>\<open>strdup\<close>.
\<close>

datatype ldap_mod_op = LDAP_MOD_ADD | LDAP_MOD_DELETE

record LDAPMod =
  mod_op :: ldap_mod_op
  mod_type :: string
  modv_strvals :: "string list"

text \<open>
  The two calls \<open>Sync\<close> makes on the connection, with the DN and the null-terminated
  array of modifications. The directory is the function \<open>ldap\<close> from a call to the
  code libldap returns for it.
\<close>

datatype ldap_call =
    ldap_add_ext_s string "LDAPMod list"
  | ldap_modify_ext_s string "LDAPMod list"

definition LDAP_SUCCESS :: int where
  "LDAP_SUCCESS = 0"

text \<open>
  Modelled from the spec: \<^verbatim>\<open>LDAPErrCode2Exception\<close> is defined outside this file. The
  write error is raised to the caller and carries the code of the collaborator.
\<close>

definition LDAPErrCode2Exception :: "int \<Rightarrow> fault + unit" where
  "LDAPErrCode2Exception rc = Inl (LDAPException rc)"

text \<open>
  One of the two loops of \<open>Sync\<close>, over the keys \<open>ks\<close> the iterator visits in the map
  \<open>m\<close> (\<^verbatim>\<open>_removed\<close> or \<^verbatim>\<open>_added\<close>). The body reads the vector through
  \<^verbatim>\<open>m[iter->first]\<close>, copies each value, and pushes one \<^verbatim>\<open>LDAPMod\<close> with the operation
  \<open>opc\<close> onto \<^verbatim>\<open>mods\<close>. The bookkeeping vectors \<^verbatim>\<open>cleanup\<close> and \<^verbatim>\<open>v_cleanup\<close> only
  hold what is freed after the call.
\<close>

fun Sync_mods :: "ldap_mod_op \<Rightarrow> string list \<Rightarrow> string list option std_map \<Rightarrow> LDAPMod list
    \<Rightarrow> (fault + LDAPMod list) \<times> string list option std_map" where
  "Sync_mods opc [] m mods = (Inr mods, m)"
| "Sync_mods opc (k # ks) m mods =
     (case std_map_index None m k of
        (None, m') \<Rightarrow> (Inl Null_pointer_dereference, m')
      | (Some vs, m') \<Rightarrow>
          Sync_mods opc ks m'
            (mods @ [\<lparr>mod_op = opc, mod_type = c_str k, modv_strvals = map c_str vs\<rparr>]))"

text \<open>
  \<open>Sync\<close> returns what the caller observes: the exception or the normal return, the
  calls made on the connection, and the entry after the call.
\<close>

definition Sync :: "(ldap_call \<Rightarrow> int) \<Rightarrow> LDAPEntry \<Rightarrow> (fault + unit) \<times> ldap_call list \<times> LDAPEntry" where
  "Sync ldap e =
     (case Sync_mods LDAP_MOD_DELETE (std_map_keys (removed e)) (removed e) [] of
        (Inl f, r) \<Rightarrow> (Inl f, [], e\<lparr>removed := r\<rparr>)
      | (Inr mods1, r) \<Rightarrow>
          (case Sync_mods LDAP_MOD_ADD (std_map_keys (added e)) (added e) mods1 of
             (Inl f, a) \<Rightarrow> (Inl f, [], e\<lparr>added := a, removed := r\<rparr>)
           | (Inr mods, a) \<Rightarrow>
               let call = (if isnew e then ldap_add_ext_s (c_str (dn e)) mods
                           else ldap_modify_ext_s (c_str (dn e)) mods);
                   rc = ldap call
               in (if rc \<noteq> LDAP_SUCCESS then LDAPErrCode2Exception rc else Inr (),
                   [call], e\<lparr>added := a, removed := r\<rparr>)))"

subsection \<open>Output\<close>

text \<open>
  \<^verbatim>\<open>void LDAPEntry::Output(std::ostream& out)\<close>. The whole body stands between
  \<^verbatim>\<open>#ifdef HAVE_LDIF_H\<close> and \<^verbatim>\<open>#endif\<close>; the parameter \<open>HAVE_LDIF_H\<close> says whether the
  macro is defined in the build. The stream \<open>out\<close> is the list of the texts written to
  it.

  With the macro, the loop of the second branch assigns \<^verbatim>\<open>_data.begin()\<close> to an
  iterator of the pointer maps and calls \<^verbatim>\<open>iter->second->begin()\<close>, while \<^verbatim>\<open>_data\<close>
  holds its vectors by value (\<^verbatim>\<open>_data[std::string(attr)] = values\<close>,
  \<^verbatim>\<open>return _data[attribute]\<close>, \<^verbatim>\<open>_data[attribute].push_back(value)\<close>): the body is
  ill-typed and the file does not compile, so that build has no \<open>Output\<close> to run,
  which is the result \<open>None\<close>. Without the macro the method has an empty body: it returns
  with the stream as it was.
\<close>

definition Output :: "bool \<Rightarrow> LDAPEntry \<Rightarrow> string list \<Rightarrow> string list option" where
  "Output HAVE_LDIF_H e out = (if HAVE_LDIF_H then None else Some out)"

section \<open>Well-formed entries\<close>

text \<open>
  The representation invariant of the class: the three maps are ordered maps, and no key
  of \<^verbatim>\<open>_added\<close> or \<^verbatim>\<open>_removed\<close> holds a null pointer. The constructors establish it
  and every method keeps it.
\<close>

definition ptrs_valid :: "string list option std_map \<Rightarrow> bool" where
  "ptrs_valid m = list_all (\<lambda>p. snd p \<noteq> None) m"

definition LDAPEntry_inv :: "LDAPEntry \<Rightarrow> bool" where
  "LDAPEntry_inv e =
     (std_map_inv (data e) \<and> std_map_inv (added e) \<and> std_map_inv (removed e)
      \<and> ptrs_valid (added e) \<and> ptrs_valid (removed e))"

section \<open>Facts about the ordered maps\<close>

lemma map_of_std_map_assign: "map_of (std_map_assign k v m) = (map_of m)(k \<mapsto> v)"
  by (induction m) (auto simp: fun_eq_iff)

lemma std_map_find_assign:
  "std_map_find (std_map_assign k v m) k' = (if k' = k then Some v else std_map_find m k')"
  by (simp add: std_map_find_def map_of_std_map_assign)

lemma std_map_assign_twice: "std_map_assign k v (std_map_assign k w m) = std_map_assign k v m"
  by (induction m) auto

lemma keys_std_map_assign: "set (map fst (std_map_assign k v m)) = insert k (set (map fst m))"
  by (induction m) auto

lemma std_map_inv_assign: "std_map_inv m \<Longrightarrow> std_map_inv (std_map_assign k v m)"
  unfolding std_map_inv_def
proof (induction m)
  case Nil
  then show ?case by simp
next
  case (Cons p m)
  have "set (map fst (std_map_assign k v m)) = insert k (fst ` set m)"
    using keys_std_map_assign [of k v m] by simp
  with Cons show ?case by (auto simp: less_le)
qed

lemma std_map_inv_erase: "std_map_inv m \<Longrightarrow> std_map_inv (std_map_erase k m)"
  unfolding std_map_inv_def std_map_erase_def
  by (induction m) auto

lemma std_map_index_present: "std_map_find m k = Some v \<Longrightarrow> std_map_index d m k = (v, m)"
  by (simp add: std_map_index_def)

lemma std_map_index_absent:
  "std_map_find m k = None \<Longrightarrow> std_map_index d m k = (d, std_map_assign k d m)"
  by (simp add: std_map_index_def)

lemma push_back_at_eq:
  "push_back_at a v m =
     std_map_assign a (Some ((case std_map_find m a of Some (Some ws) \<Rightarrow> ws | _ \<Rightarrow> []) @ [v])) m"
  by (simp add: push_back_at_def std_map_index_def std_map_assign_twice split: option.splits)

lemma ptrs_valid_assign: "ptrs_valid m \<Longrightarrow> ptrs_valid (std_map_assign k (Some vs) m)"
  unfolding ptrs_valid_def by (induction m) auto

lemma ptrs_valid_push_back_at: "ptrs_valid m \<Longrightarrow> ptrs_valid (push_back_at a v m)"
  by (simp add: push_back_at_eq ptrs_valid_assign)

lemma std_map_inv_push_back_at: "std_map_inv m \<Longrightarrow> std_map_inv (push_back_at a v m)"
  by (simp add: push_back_at_eq std_map_inv_assign)

lemma std_map_find_push_back_at:
  "std_map_find (push_back_at a v m) k =
     (if k = a then Some (Some ((case std_map_find m a of Some (Some ws) \<Rightarrow> ws | _ \<Rightarrow> []) @ [v]))
      else std_map_find m k)"
  by (simp add: push_back_at_eq std_map_find_assign)

section \<open>The loops of Sync\<close>

lemma std_map_find_key: "k \<in> fst ` set m \<Longrightarrow> \<exists>v. std_map_find m k = Some v"
  unfolding std_map_find_def by (metis map_of_eq_None_iff not_Some_eq)

lemma Sync_mods_map_unchanged:
  "set ks \<subseteq> fst ` set m \<Longrightarrow> snd (Sync_mods opc ks m acc) = m"
proof (induction ks arbitrary: acc)
  case Nil
  then show ?case by simp
next
  case (Cons k ks)
  then obtain p where p: "std_map_find m k = Some p"
    using std_map_find_key [of k m] by auto
  show ?case
  proof (cases p)
    case None
    with p show ?thesis by (simp add: std_map_index_present)
  next
    case (Some vs)
    with p Cons show ?thesis by (simp add: std_map_index_present)
  qed
qed

lemma ptrs_valid_find:
  "ptrs_valid m \<Longrightarrow> k \<in> fst ` set m \<Longrightarrow> \<exists>vs. std_map_find m k = Some (Some vs)"
proof -
  assume v: "ptrs_valid m" and k: "k \<in> fst ` set m"
  then obtain p where p: "map_of m k = Some p"
    using std_map_find_key [of k m] by (auto simp: std_map_find_def)
  then have "(k, p) \<in> set m" by (rule map_of_SomeD)
  with v have "p \<noteq> None" by (auto simp: ptrs_valid_def list_all_iff)
  with p show ?thesis by (auto simp: std_map_find_def)
qed

lemma Sync_mods_keys:
  "set ks \<subseteq> fst ` set m \<Longrightarrow> ptrs_valid m \<Longrightarrow>
   Sync_mods opc ks m acc =
     (Inr (acc @ map (\<lambda>k. \<lparr>mod_op = opc, mod_type = c_str k,
                          modv_strvals = map c_str (the (the (std_map_find m k)))\<rparr>) ks), m)"
proof (induction ks arbitrary: acc)
  case Nil
  then show ?case by simp
next
  case (Cons k ks)
  then obtain vs where "std_map_find m k = Some (Some vs)"
    using ptrs_valid_find [of m k] by auto
  with Cons show ?case by (simp add: std_map_index_present)
qed

lemma std_map_inv_distinct: "std_map_inv m \<Longrightarrow> distinct (map fst m)"
  unfolding std_map_inv_def by (simp add: strict_sorted_iff)

lemma std_map_find_own: "std_map_inv m \<Longrightarrow> p \<in> set m \<Longrightarrow> std_map_find m (fst p) = Some (snd p)"
  using std_map_inv_distinct [of m] by (simp add: std_map_find_def)

lemma Sync_mods_all:
  assumes "std_map_inv m" and "ptrs_valid m"
  shows "Sync_mods opc (std_map_keys m) m acc =
     (Inr (acc @ map (\<lambda>p. \<lparr>mod_op = opc, mod_type = c_str (fst p),
                          modv_strvals = map c_str (the (snd p))\<rparr>) m), m)"
proof -
  have "map (\<lambda>k. \<lparr>mod_op = opc, mod_type = c_str k,
                  modv_strvals = map c_str (the (the (std_map_find m k)))\<rparr>) (map fst m)
        = map (\<lambda>p. \<lparr>mod_op = opc, mod_type = c_str (fst p),
                  modv_strvals = map c_str (the (snd p))\<rparr>) m"
    using std_map_find_own [OF assms(1)] by (simp add: comp_def)
  then show ?thesis
    using Sync_mods_keys [of "map fst m" m opc acc] assms(2) by (simp add: std_map_keys_def)
qed

lemma Sync_entry_unchanged: "snd (snd (Sync ldap e)) = e"
proof -
  obtain x r where d:
    "Sync_mods LDAP_MOD_DELETE (std_map_keys (removed e)) (removed e) [] = (x, r)"
    by fastforce
  have "snd (Sync_mods LDAP_MOD_DELETE (std_map_keys (removed e)) (removed e) []) = removed e"
    by (simp add: Sync_mods_map_unchanged std_map_keys_def)
  with d have r: "r = removed e" by simp
  show ?thesis
  proof (cases x)
    case (Inl f)
    with d r show ?thesis by (simp add: Sync_def)
  next
    case (Inr mods1)
    obtain y a where m:
      "Sync_mods LDAP_MOD_ADD (std_map_keys (added e)) (added e) mods1 = (y, a)"
      by fastforce
    have "snd (Sync_mods LDAP_MOD_ADD (std_map_keys (added e)) (added e) mods1) = added e"
      by (simp add: Sync_mods_map_unchanged std_map_keys_def)
    with m have a: "a = added e" by simp
    from d r Inr m a show ?thesis
      by (cases y) (simp_all add: Sync_def Let_def)
  qed
qed

lemma Sync_well_formed:
  assumes "LDAPEntry_inv e"
  shows "Sync ldap e =
    (let mods = map (\<lambda>p. \<lparr>mod_op = LDAP_MOD_DELETE, mod_type = c_str (fst p),
                          modv_strvals = map c_str (the (snd p))\<rparr>) (removed e)
              @ map (\<lambda>p. \<lparr>mod_op = LDAP_MOD_ADD, mod_type = c_str (fst p),
                          modv_strvals = map c_str (the (snd p))\<rparr>) (added e);
         call = (if isnew e then ldap_add_ext_s (c_str (dn e)) mods
                 else ldap_modify_ext_s (c_str (dn e)) mods)
     in (if ldap call \<noteq> LDAP_SUCCESS then Inl (LDAPException (ldap call)) else Inr (),
         [call], e))"
  using assms
  by (simp add: Sync_def LDAPEntry_inv_def Sync_mods_all Let_def LDAPErrCode2Exception_def)

section \<open>The invariant is established and kept\<close>

lemma LDAPEntry_inv_new: "LDAPEntry_inv (LDAPEntry_new d)"
  by (simp add: LDAPEntry_inv_def LDAPEntry_new_def std_map_inv_def ptrs_valid_def)

lemma std_map_inv_foldl_assign:
  "std_map_inv m \<Longrightarrow>
   std_map_inv (foldl (\<lambda>m (attr, values). std_map_assign attr values m) m attrs)"
  by (induction attrs arbitrary: m) (auto simp: std_map_inv_assign)

lemma LDAPEntry_inv_of_message: "LDAPEntry_inv (LDAPEntry_of_message d attrs)"
  using std_map_inv_foldl_assign [of "[]" attrs]
  by (simp add: LDAPEntry_inv_def LDAPEntry_of_message_def std_map_inv_def ptrs_valid_def)

lemma LDAPEntry_inv_AddValue: "LDAPEntry_inv e \<Longrightarrow> LDAPEntry_inv (AddValue a v e)"
  by (auto simp: LDAPEntry_inv_def AddValue_def std_map_index_def std_map_inv_assign
      std_map_inv_push_back_at ptrs_valid_push_back_at split: option.splits)

lemma foldl_push_back_at_inv:
  "std_map_inv r \<and> ptrs_valid r \<Longrightarrow>
   std_map_inv (foldl (\<lambda>r x. if c x then push_back_at a (g x) r else r) r vs)
   \<and> ptrs_valid (foldl (\<lambda>r x. if c x then push_back_at a (g x) r else r) r vs)"
  by (induction vs arbitrary: r) (auto simp: std_map_inv_push_back_at ptrs_valid_push_back_at)

lemma LDAPEntry_inv_RemoveValue: "LDAPEntry_inv e \<Longrightarrow> LDAPEntry_inv (RemoveValue a v e)"
  using foldl_push_back_at_inv [of "removed e" "\<lambda>x. x = v" a "\<lambda>x. v"]
  by (auto simp: LDAPEntry_inv_def RemoveValue_def std_map_index_def std_map_inv_assign Let_def
      std_map_inv_erase split: option.splits)

lemma LDAPEntry_inv_RemoveAllValues: "LDAPEntry_inv e \<Longrightarrow> LDAPEntry_inv (RemoveAllValues a e)"
  using foldl_push_back_at_inv [of "removed e" "\<lambda>x. True" a "\<lambda>x. x"]
  by (auto simp: LDAPEntry_inv_def RemoveAllValues_def std_map_index_def std_map_inv_assign Let_def
      std_map_inv_erase split: option.splits)

lemma LDAPEntry_inv_GetValue: "LDAPEntry_inv e \<Longrightarrow> LDAPEntry_inv (snd (GetValue a e))"
  by (auto simp: LDAPEntry_inv_def GetValue_def std_map_index_def std_map_inv_assign
      split: option.splits)

lemma LDAPEntry_inv_GetFirstValue: "LDAPEntry_inv e \<Longrightarrow> LDAPEntry_inv (snd (GetFirstValue a e))"
  by (auto simp: LDAPEntry_inv_def GetFirstValue_def std_map_index_def std_map_inv_assign
      split: option.splits)

lemma LDAPEntry_inv_Sync: "LDAPEntry_inv e \<Longrightarrow> LDAPEntry_inv (snd (snd (Sync ldap e)))"
  by (simp add: Sync_entry_unchanged)

lemma GetKeys_keys: "GetKeys e = std_map_keys (data e)"
proof -
  have "\<And>rv. foldl (\<lambda>rv p. rv @ [fst p]) rv m = rv @ map fst m" for m :: "string list std_map"
    by (induction m) auto
  then show ?thesis by (simp add: GetKeys_def std_map_keys_def)
qed


section \<open>Evaluation on concrete entries\<close>

lemmas entry_eval =
  LDAPEntry_new_def LDAPEntry_of_message_def AddValue_def RemoveValue_def RemoveAllValues_def
  GetValue_def push_back_at_def std_map_index_def std_map_find_def std_map_count_def
  std_map_erase_def

lemmas Sync_eval =
  Sync_def std_map_keys_def c_str_def LDAP_SUCCESS_def LDAPErrCode2Exception_def

lemma mods_as_triples:
  "ptrs_valid m \<Longrightarrow>
   map (\<lambda>x. (mod_op x, mod_type x, Some (modv_strvals x)))
     (map (\<lambda>p. \<lparr>mod_op = opc, mod_type = c_str (fst p),
                 modv_strvals = map c_str (the (snd p))\<rparr>) m)
   = map (\<lambda>p. (opc, c_str (fst p), map_option (map c_str) (snd p))) m"
  by (induction m) (auto simp: ptrs_valid_def)

section \<open>The claims\<close>

text \<open>
  C1. \<open>RemoveValue\<close> is to record the value into \<^verbatim>\<open>_removed\<close> once per occurrence and
  to take every occurrence out of \<^verbatim>\<open>_data\<close>, so that an entry read with the values
  Bob and Robert for cn answers \<open>GetValue\<close> of cn with Bob alone after Robert was
  removed. The method does the first and not the second: on that entry the value is
  recorded once, and \<open>GetValue\<close> still returns both values.
\<close>

theorem RemoveValue_keeps_CurrentState:
  "fst (GetValue ''cn'' (RemoveValue ''cn'' ''Robert''
          (LDAPEntry_of_message ''uid=bob,ou=people'' [(''cn'', [''Bob'', ''Robert''])])))
     = [''Bob'', ''Robert'']
   \<and> removed (RemoveValue ''cn'' ''Robert''
          (LDAPEntry_of_message ''uid=bob,ou=people'' [(''cn'', [''Bob'', ''Robert''])]))
     = [(''cn'', Some [''Robert''])]"
  by (simp add: GetValue_def RemoveValue_def LDAPEntry_of_message_def std_map_index_def
      std_map_find_def std_map_count_def push_back_at_def std_map_erase_def)

text \<open>
  C7. \<open>GetFirstValue\<close> is to return the empty string for an attribute that is present
  and holds no value, and never to reach \<^verbatim>\<open>front()\<close> of an empty vector. It does reach
  it: on a new entry after \<open>GetValue\<close> has asked for the attribute, and on an entry read
  from a message that lists the attribute with no value.
\<close>

theorem GetFirstValue_front_of_empty_vector:
  "fst (GetFirstValue ''cn'' (snd (GetValue ''cn'' (LDAPEntry_new ''uid=bob,ou=people''))))
     = Inl Front_of_empty_vector
   \<and> fst (GetFirstValue ''cn'' (LDAPEntry_of_message ''uid=bob,ou=people'' [(''cn'', [])]))
     = Inl Front_of_empty_vector"
  by (simp add: GetFirstValue_def GetValue_def LDAPEntry_new_def LDAPEntry_of_message_def
      std_map_index_def std_map_find_def)

text \<open>
  C6. \<open>GetValue\<close> returns the vector of the attribute in \<^verbatim>\<open>_data\<close>, in its order, and
  the empty vector when the attribute is absent; it has no failure to return.
\<close>

theorem GetValue_current_values:
  "fst (GetValue a e) = (case std_map_find (data e) a of Some vs \<Rightarrow> vs | None \<Rightarrow> [])"
  by (simp add: GetValue_def std_map_index_def split: option.splits)

text \<open>
  C10. For an attribute absent from \<^verbatim>\<open>_data\<close>, \<open>GetValue\<close> returns the empty vector
  and inserts the attribute with an empty vector: \<open>GetKeys\<close> did not list the attribute
  before the call and lists it after, and the entry is not the one it was.
\<close>

theorem GetValue_inserts_absent_key:
  assumes "std_map_find (data e) a = None"
  shows "fst (GetValue a e) = []
    \<and> a \<notin> set (GetKeys e)
    \<and> a \<in> set (GetKeys (snd (GetValue a e)))
    \<and> std_map_find (data (snd (GetValue a e))) a = Some []
    \<and> snd (GetValue a e) \<noteq> e"
proof -
  have d: "data (snd (GetValue a e)) = std_map_assign a [] (data e)"
    using assms by (simp add: GetValue_def std_map_index_absent)
  have n: "a \<notin> set (GetKeys e)"
    using assms by (simp add: GetKeys_keys std_map_keys_def std_map_find_def map_of_eq_None_iff)
  have i: "a \<in> set (GetKeys (snd (GetValue a e)))"
    using d keys_std_map_assign [of a "[]" "data e"] by (simp add: GetKeys_keys std_map_keys_def)
  have f: "std_map_find (data (snd (GetValue a e))) a = Some []"
    using d by (simp add: std_map_find_assign)
  from n i have "snd (GetValue a e) \<noteq> e" by auto
  with assms n i f show ?thesis by (simp add: GetValue_current_values)
qed

text \<open>On a new entry, asked for cn.\<close>

theorem GetValue_inserts_absent_key_witness:
  "std_map_find (data (LDAPEntry_new ''uid=bob,ou=people'')) ''cn'' = None
   \<and> fst (GetValue ''cn'' (LDAPEntry_new ''uid=bob,ou=people'')) = []
   \<and> GetKeys (LDAPEntry_new ''uid=bob,ou=people'') = []
   \<and> GetKeys (snd (GetValue ''cn'' (LDAPEntry_new ''uid=bob,ou=people''))) = [''cn'']"
proof -
  have h: "std_map_find (data (LDAPEntry_new ''uid=bob,ou=people'')) ''cn'' = None"
    by (simp add: LDAPEntry_new_def std_map_find_def)
  have k: "GetKeys (snd (GetValue ''cn'' (LDAPEntry_new ''uid=bob,ou=people''))) = [''cn'']"
    by (simp add: GetKeys_def GetValue_def LDAPEntry_new_def std_map_index_def std_map_find_def)
  have "GetKeys (LDAPEntry_new ''uid=bob,ou=people'') = []"
    by (simp add: GetKeys_def LDAPEntry_new_def)
  with h k GetValue_inserts_absent_key [OF h] show ?thesis by simp
qed

text \<open>
  C8. \<open>AddValue\<close> appends the value to the vector of the attribute in \<^verbatim>\<open>_data\<close> and to
  the one in \<^verbatim>\<open>_added\<close>, an absent key (or a null pointer) counting as the empty
  vector; two calls with the same attribute and value append the value twice to each.
\<close>

theorem AddValue_appends_without_deduplication:
  "std_map_find (data (AddValue a v e)) a
     = Some ((case std_map_find (data e) a of Some vs \<Rightarrow> vs | None \<Rightarrow> []) @ [v])
   \<and> std_map_find (added (AddValue a v e)) a
     = Some (Some ((case std_map_find (added e) a of Some (Some ws) \<Rightarrow> ws | _ \<Rightarrow> []) @ [v]))
   \<and> std_map_find (data (AddValue a v (AddValue a v e))) a
     = Some ((case std_map_find (data e) a of Some vs \<Rightarrow> vs | None \<Rightarrow> []) @ [v, v])
   \<and> std_map_find (added (AddValue a v (AddValue a v e))) a
     = Some (Some ((case std_map_find (added e) a of Some (Some ws) \<Rightarrow> ws | _ \<Rightarrow> []) @ [v, v]))"
proof -
  have d: "std_map_find (data (AddValue a v e)) a
     = Some ((case std_map_find (data e) a of Some vs \<Rightarrow> vs | None \<Rightarrow> []) @ [v])" for e
    by (simp add: AddValue_def std_map_index_def std_map_find_assign split: option.splits)
  have p: "std_map_find (added (AddValue a v e)) a
     = Some (Some ((case std_map_find (added e) a of Some (Some ws) \<Rightarrow> ws | _ \<Rightarrow> []) @ [v]))" for e
    by (simp add: AddValue_def std_map_find_push_back_at split: prod.splits)
  show ?thesis
    by (simp add: d p)
qed

text \<open>
  C2 as stated fails: after a \<open>Sync\<close> that succeeds on a new entry with one added value,
  \<^verbatim>\<open>_added\<close> still holds the value and \<^verbatim>\<open>_isnew\<close> is still true.
\<close>

theorem Sync_success_keeps_delta_and_isnew:
  "fst (Sync (\<lambda>c. LDAP_SUCCESS) (AddValue ''cn'' ''Bob'' (LDAPEntry_new ''uid=bob,ou=people'')))
     = Inr ()
   \<and> added (snd (snd (Sync (\<lambda>c. LDAP_SUCCESS)
        (AddValue ''cn'' ''Bob'' (LDAPEntry_new ''uid=bob,ou=people'')))))
     = [(''cn'', Some [''Bob''])]
   \<and> isnew (snd (snd (Sync (\<lambda>c. LDAP_SUCCESS)
        (AddValue ''cn'' ''Bob'' (LDAPEntry_new ''uid=bob,ou=people'')))))"
  by (simp add: entry_eval Sync_eval)

text \<open>
  C2, amended. After a \<open>Sync\<close> that succeeds, \<^verbatim>\<open>_added\<close>, \<^verbatim>\<open>_removed\<close> and
  \<^verbatim>\<open>_isnew\<close> are what they were before the call: \<open>Sync\<close> clears neither map and does
  not reset the flag.
\<close>

theorem Sync_success_leaves_delta:
  assumes "fst (Sync ldap e) = Inr ()"
  shows "added (snd (snd (Sync ldap e))) = added e
    \<and> removed (snd (snd (Sync ldap e))) = removed e
    \<and> isnew (snd (snd (Sync ldap e))) = isnew e"
  by (simp add: Sync_entry_unchanged)

text \<open>
  An entry read with cn = Bob, whose values of cn are all removed.
\<close>

theorem Sync_success_leaves_delta_witness:
  "fst (Sync (\<lambda>c. LDAP_SUCCESS) (RemoveAllValues ''cn''
      (LDAPEntry_of_message ''uid=bob,ou=people'' [(''cn'', [''Bob''])]))) = Inr ()
   \<and> added (snd (snd (Sync (\<lambda>c. LDAP_SUCCESS) (RemoveAllValues ''cn''
      (LDAPEntry_of_message ''uid=bob,ou=people'' [(''cn'', [''Bob''])]))))) = []
   \<and> removed (snd (snd (Sync (\<lambda>c. LDAP_SUCCESS) (RemoveAllValues ''cn''
      (LDAPEntry_of_message ''uid=bob,ou=people'' [(''cn'', [''Bob''])])))))
     = [(''cn'', Some [''Bob''])]
   \<and> \<not> isnew (snd (snd (Sync (\<lambda>c. LDAP_SUCCESS) (RemoveAllValues ''cn''
      (LDAPEntry_of_message ''uid=bob,ou=people'' [(''cn'', [''Bob''])])))))"
proof -
  have h: "fst (Sync (\<lambda>c. LDAP_SUCCESS) (RemoveAllValues ''cn''
      (LDAPEntry_of_message ''uid=bob,ou=people'' [(''cn'', [''Bob''])]))) = Inr ()"
    by (simp add: entry_eval Sync_eval)
  have "added (RemoveAllValues ''cn''
      (LDAPEntry_of_message ''uid=bob,ou=people'' [(''cn'', [''Bob''])])) = []"
    and "removed (RemoveAllValues ''cn''
      (LDAPEntry_of_message ''uid=bob,ou=people'' [(''cn'', [''Bob''])])) = [(''cn'', Some [''Bob''])]"
    and "\<not> isnew (RemoveAllValues ''cn''
      (LDAPEntry_of_message ''uid=bob,ou=people'' [(''cn'', [''Bob''])]))"
    by (simp_all add: entry_eval)
  with h Sync_success_leaves_delta [OF h] show ?thesis by simp
qed

text \<open>
  C3. The batch that \<open>Sync\<close> hands to the directory holds one \<^verbatim>\<open>LDAP_MOD_DELETE\<close> for each
  key of \<^verbatim>\<open>_removed\<close>, in the order of the keys, followed by one \<^verbatim>\<open>LDAP_MOD_ADD\<close> for
  each key of \<^verbatim>\<open>_added\<close>: every deletion stands before every addition, also when the
  two maps share attribute names.
\<close>

theorem Sync_removals_before_additions:
  assumes "LDAPEntry_inv e"
  shows "\<exists>mods.
      fst (snd (Sync ldap e))
        = [if isnew e then ldap_add_ext_s (c_str (dn e)) mods
           else ldap_modify_ext_s (c_str (dn e)) mods]
    \<and> map mod_op mods
        = replicate (length (std_map_keys (removed e))) LDAP_MOD_DELETE
          @ replicate (length (std_map_keys (added e))) LDAP_MOD_ADD
    \<and> map mod_type mods
        = map c_str (std_map_keys (removed e)) @ map c_str (std_map_keys (added e))
    \<and> (\<forall>i j. i < length mods \<and> j < length mods
           \<and> mod_op (mods ! i) = LDAP_MOD_DELETE \<and> mod_op (mods ! j) = LDAP_MOD_ADD
         \<longrightarrow> i < j)"
proof -
  define ds where "ds = map (\<lambda>p. \<lparr>mod_op = LDAP_MOD_DELETE, mod_type = c_str (fst p),
                          modv_strvals = map c_str (the (snd p))\<rparr>) (removed e)"
  define as where "as = map (\<lambda>p. \<lparr>mod_op = LDAP_MOD_ADD, mod_type = c_str (fst p),
                          modv_strvals = map c_str (the (snd p))\<rparr>) (added e)"
  have calls: "fst (snd (Sync ldap e))
        = [if isnew e then ldap_add_ext_s (c_str (dn e)) (ds @ as)
           else ldap_modify_ext_s (c_str (dn e)) (ds @ as)]"
    by (simp add: Sync_well_formed [OF assms] Let_def ds_def as_def)
  have ops: "map mod_op (ds @ as)
        = replicate (length (std_map_keys (removed e))) LDAP_MOD_DELETE
          @ replicate (length (std_map_keys (added e))) LDAP_MOD_ADD"
    by (simp add: ds_def as_def std_map_keys_def comp_def map_replicate_const)
  have types: "map mod_type (ds @ as)
        = map c_str (std_map_keys (removed e)) @ map c_str (std_map_keys (added e))"
    by (simp add: ds_def as_def std_map_keys_def comp_def)
  have d: "\<And>i. i < length ds \<Longrightarrow> mod_op (ds ! i) = LDAP_MOD_DELETE"
    by (simp add: ds_def)
  have a: "\<And>j. j < length as \<Longrightarrow> mod_op (as ! j) = LDAP_MOD_ADD"
    by (simp add: as_def)
  have order: "i < j"
    if "i < length (ds @ as)" "j < length (ds @ as)"
       "mod_op ((ds @ as) ! i) = LDAP_MOD_DELETE" "mod_op ((ds @ as) ! j) = LDAP_MOD_ADD"
    for i j
  proof -
    have i: "i < length ds"
    proof (rule ccontr)
      assume "\<not> i < length ds"
      with that(1,3) a [of "i - length ds"] show False by (simp add: nth_append)
    qed
    have "\<not> j < length ds"
    proof
      assume "j < length ds"
      with that(4) d [of j] show False by (simp add: nth_append)
    qed
    with i show ?thesis by simp
  qed
  from calls ops types order show ?thesis by blast
qed

text \<open>
  An entry read with cn = Bob, where Bob is removed from cn and Robert added to it.
\<close>

theorem Sync_removals_before_additions_witness:
  "LDAPEntry_inv (AddValue ''cn'' ''Robert'' (RemoveValue ''cn'' ''Bob''
      (LDAPEntry_of_message ''uid=bob,ou=people'' [(''cn'', [''Bob''])])))
   \<and> fst (snd (Sync (\<lambda>c. LDAP_SUCCESS) (AddValue ''cn'' ''Robert'' (RemoveValue ''cn'' ''Bob''
      (LDAPEntry_of_message ''uid=bob,ou=people'' [(''cn'', [''Bob''])])))))
     = [ldap_modify_ext_s ''uid=bob,ou=people''
         [\<lparr>mod_op = LDAP_MOD_DELETE, mod_type = ''cn'', modv_strvals = [''Bob'']\<rparr>,
          \<lparr>mod_op = LDAP_MOD_ADD, mod_type = ''cn'', modv_strvals = [''Robert'']\<rparr>]]"
proof -
  have inv: "LDAPEntry_inv (AddValue ''cn'' ''Robert'' (RemoveValue ''cn'' ''Bob''
      (LDAPEntry_of_message ''uid=bob,ou=people'' [(''cn'', [''Bob''])])))"
    by (intro LDAPEntry_inv_AddValue LDAPEntry_inv_RemoveValue LDAPEntry_inv_of_message)
  have "fst (snd (Sync (\<lambda>c. LDAP_SUCCESS) (AddValue ''cn'' ''Robert'' (RemoveValue ''cn'' ''Bob''
      (LDAPEntry_of_message ''uid=bob,ou=people'' [(''cn'', [''Bob''])])))))
     = [ldap_modify_ext_s ''uid=bob,ou=people''
         [\<lparr>mod_op = LDAP_MOD_DELETE, mod_type = ''cn'', modv_strvals = [''Bob'']\<rparr>,
          \<lparr>mod_op = LDAP_MOD_ADD, mod_type = ''cn'', modv_strvals = [''Robert'']\<rparr>]]"
    by (simp add: entry_eval Sync_eval)
  with inv Sync_removals_before_additions [OF inv, of "\<lambda>c. LDAP_SUCCESS"] show ?thesis
    by simp
qed

text \<open>
  C4. When \<open>Sync\<close> raises the exception for a code other than success, \<^verbatim>\<open>_data\<close>,
  \<^verbatim>\<open>_added\<close> and \<^verbatim>\<open>_removed\<close> are what they were before the call.
\<close>

theorem Sync_failure_leaves_state:
  assumes "fst (Sync ldap e) = Inl (LDAPException rc)"
  shows "data (snd (snd (Sync ldap e))) = data e
    \<and> added (snd (snd (Sync ldap e))) = added e
    \<and> removed (snd (snd (Sync ldap e))) = removed e"
  by (simp add: Sync_entry_unchanged)

text \<open>
  A new entry with one value, and a directory that answers 68 (already exists).
\<close>

theorem Sync_failure_leaves_state_witness:
  "fst (Sync (\<lambda>c. 68) (AddValue ''cn'' ''Bob'' (LDAPEntry_new ''uid=bob,ou=people'')))
     = Inl (LDAPException 68)
   \<and> data (snd (snd (Sync (\<lambda>c. 68) (AddValue ''cn'' ''Bob'' (LDAPEntry_new ''uid=bob,ou=people'')))))
     = [(''cn'', [''Bob''])]
   \<and> added (snd (snd (Sync (\<lambda>c. 68) (AddValue ''cn'' ''Bob'' (LDAPEntry_new ''uid=bob,ou=people'')))))
     = [(''cn'', Some [''Bob''])]
   \<and> removed (snd (snd (Sync (\<lambda>c. 68) (AddValue ''cn'' ''Bob'' (LDAPEntry_new ''uid=bob,ou=people'')))))
     = []"
proof -
  have h: "fst (Sync (\<lambda>c. 68) (AddValue ''cn'' ''Bob'' (LDAPEntry_new ''uid=bob,ou=people'')))
     = Inl (LDAPException 68)"
    by (simp add: entry_eval Sync_eval)
  have "data (AddValue ''cn'' ''Bob'' (LDAPEntry_new ''uid=bob,ou=people'')) = [(''cn'', [''Bob''])]"
    and "added (AddValue ''cn'' ''Bob'' (LDAPEntry_new ''uid=bob,ou=people'')) = [(''cn'', Some [''Bob''])]"
    and "removed (AddValue ''cn'' ''Bob'' (LDAPEntry_new ''uid=bob,ou=people'')) = []"
    by (simp_all add: entry_eval)
  with h Sync_failure_leaves_state [OF h] show ?thesis by simp
qed

text \<open>
  C5 as stated fails: a new entry to which Bob is added as cn, and whose values of cn are
  then all removed, has an empty \<^verbatim>\<open>_data\<close>; \<open>Sync\<close> submits a create with the deletion
  and the addition of the delta maps.
\<close>

theorem Sync_create_is_not_CurrentState:
  "isnew (RemoveAllValues ''cn'' (AddValue ''cn'' ''Bob'' (LDAPEntry_new ''uid=bob,ou=people'')))
   \<and> data (RemoveAllValues ''cn'' (AddValue ''cn'' ''Bob'' (LDAPEntry_new ''uid=bob,ou=people'')))
     = []
   \<and> fst (snd (Sync (\<lambda>c. LDAP_SUCCESS)
        (RemoveAllValues ''cn'' (AddValue ''cn'' ''Bob'' (LDAPEntry_new ''uid=bob,ou=people'')))))
     = [ldap_add_ext_s ''uid=bob,ou=people''
         [\<lparr>mod_op = LDAP_MOD_DELETE, mod_type = ''cn'', modv_strvals = [''Bob'']\<rparr>,
          \<lparr>mod_op = LDAP_MOD_ADD, mod_type = ''cn'', modv_strvals = [''Bob'']\<rparr>]]"
  by (simp add: entry_eval Sync_eval)

text \<open>
  C5, amended. \<open>Sync\<close> builds one batch from the delta maps alone, the deletions of
  \<^verbatim>\<open>_removed\<close> followed by the additions of \<^verbatim>\<open>_added\<close>, and does not read \<^verbatim>\<open>_data\<close>;
  it submits this batch as a create (\<^verbatim>\<open>ldap_add_ext_s\<close>) when \<^verbatim>\<open>_isnew\<close> is true and as a
  modify (\<^verbatim>\<open>ldap_modify_ext_s\<close>) when it is false.
\<close>

theorem Sync_submits_the_delta:
  assumes "LDAPEntry_inv e"
  shows "\<exists>mods.
      fst (snd (Sync ldap e))
        = [if isnew e then ldap_add_ext_s (c_str (dn e)) mods
           else ldap_modify_ext_s (c_str (dn e)) mods]
    \<and> map (\<lambda>m. (mod_op m, mod_type m, Some (modv_strvals m))) mods
        = map (\<lambda>p. (LDAP_MOD_DELETE, c_str (fst p), map_option (map c_str) (snd p))) (removed e)
          @ map (\<lambda>p. (LDAP_MOD_ADD, c_str (fst p), map_option (map c_str) (snd p))) (added e)
    \<and> fst (snd (Sync ldap (e\<lparr>data := d\<rparr>))) = fst (snd (Sync ldap e))"
proof -
  define ds where "ds = map (\<lambda>p. \<lparr>mod_op = LDAP_MOD_DELETE, mod_type = c_str (fst p),
                          modv_strvals = map c_str (the (snd p))\<rparr>) (removed e)"
  define as where "as = map (\<lambda>p. \<lparr>mod_op = LDAP_MOD_ADD, mod_type = c_str (fst p),
                          modv_strvals = map c_str (the (snd p))\<rparr>) (added e)"
  have calls: "fst (snd (Sync ldap e))
        = [if isnew e then ldap_add_ext_s (c_str (dn e)) (ds @ as)
           else ldap_modify_ext_s (c_str (dn e)) (ds @ as)]"
    by (simp add: Sync_well_formed [OF assms] Let_def ds_def as_def)
  have pr: "ptrs_valid (removed e)" and pa: "ptrs_valid (added e)"
    using assms by (simp_all add: LDAPEntry_inv_def)
  have r: "map (\<lambda>m. (mod_op m, mod_type m, Some (modv_strvals m))) ds
      = map (\<lambda>p. (LDAP_MOD_DELETE, c_str (fst p), map_option (map c_str) (snd p))) (removed e)"
    unfolding ds_def by (rule mods_as_triples [OF pr])
  have a: "map (\<lambda>m. (mod_op m, mod_type m, Some (modv_strvals m))) as
      = map (\<lambda>p. (LDAP_MOD_ADD, c_str (fst p), map_option (map c_str) (snd p))) (added e)"
    unfolding as_def by (rule mods_as_triples [OF pa])
  have f: "fst (snd (Sync ldap (e\<lparr>data := d\<rparr>))) = fst (snd (Sync ldap e))"
    by (simp add: Sync_def Let_def split: prod.splits sum.splits)
  from calls r a f show ?thesis by auto
qed

text \<open>
  A new entry with a value for cn and one for mail is created with the two additions; an
  entry read from the directory, whose values of cn are removed, is modified.
\<close>

theorem Sync_submits_the_delta_witness:
  "LDAPEntry_inv (AddValue ''mail'' ''bob@x.com'' (AddValue ''cn'' ''Bob''
      (LDAPEntry_new ''uid=bob,ou=people'')))
   \<and> fst (snd (Sync (\<lambda>c. LDAP_SUCCESS) (AddValue ''mail'' ''bob@x.com'' (AddValue ''cn'' ''Bob''
      (LDAPEntry_new ''uid=bob,ou=people'')))))
     = [ldap_add_ext_s ''uid=bob,ou=people''
         [\<lparr>mod_op = LDAP_MOD_ADD, mod_type = ''cn'', modv_strvals = [''Bob'']\<rparr>,
          \<lparr>mod_op = LDAP_MOD_ADD, mod_type = ''mail'', modv_strvals = [''bob@x.com'']\<rparr>]]
   \<and> fst (snd (Sync (\<lambda>c. LDAP_SUCCESS) (RemoveAllValues ''cn''
      (LDAPEntry_of_message ''uid=bob,ou=people'' [(''cn'', [''Bob'']), (''mail'', [''bob@x.com''])]))))
     = [ldap_modify_ext_s ''uid=bob,ou=people''
         [\<lparr>mod_op = LDAP_MOD_DELETE, mod_type = ''cn'', modv_strvals = [''Bob'']\<rparr>]]"
proof -
  have inv: "LDAPEntry_inv (AddValue ''mail'' ''bob@x.com'' (AddValue ''cn'' ''Bob''
      (LDAPEntry_new ''uid=bob,ou=people'')))"
    by (intro LDAPEntry_inv_AddValue LDAPEntry_inv_new)
  have c: "fst (snd (Sync (\<lambda>c. LDAP_SUCCESS) (AddValue ''mail'' ''bob@x.com'' (AddValue ''cn'' ''Bob''
      (LDAPEntry_new ''uid=bob,ou=people'')))))
     = [ldap_add_ext_s ''uid=bob,ou=people''
         [\<lparr>mod_op = LDAP_MOD_ADD, mod_type = ''cn'', modv_strvals = [''Bob'']\<rparr>,
          \<lparr>mod_op = LDAP_MOD_ADD, mod_type = ''mail'', modv_strvals = [''bob@x.com'']\<rparr>]]"
    by (simp add: entry_eval Sync_eval)
  have m: "fst (snd (Sync (\<lambda>c. LDAP_SUCCESS) (RemoveAllValues ''cn''
      (LDAPEntry_of_message ''uid=bob,ou=people'' [(''cn'', [''Bob'']), (''mail'', [''bob@x.com''])]))))
     = [ldap_modify_ext_s ''uid=bob,ou=people''
         [\<lparr>mod_op = LDAP_MOD_DELETE, mod_type = ''cn'', modv_strvals = [''Bob'']\<rparr>]]"
    by (simp add: entry_eval Sync_eval)
  from inv c m Sync_submits_the_delta [OF inv, of "\<lambda>c. LDAP_SUCCESS"] show ?thesis
    by simp
qed

text \<open>
  C9. \<open>Output\<close> is to write the values of \<^verbatim>\<open>_data\<close> when \<^verbatim>\<open>_data\<close> is not empty, and the
  comment with the values of \<^verbatim>\<open>_added\<close> otherwise. No build does: for an entry read
  with the values Bob and Robert for cn, the method built without \<^verbatim>\<open>HAVE_LDIF_H\<close>
  returns with nothing written, and with \<^verbatim>\<open>HAVE_LDIF_H\<close> there is no method to call.
\<close>

theorem Output_writes_nothing:
  "data (LDAPEntry_of_message ''uid=bob,ou=people'' [(''cn'', [''Bob'', ''Robert''])])
     = [(''cn'', [''Bob'', ''Robert''])]
   \<and> Output False (LDAPEntry_of_message ''uid=bob,ou=people'' [(''cn'', [''Bob'', ''Robert''])]) []
     = Some []
   \<and> Output True (LDAPEntry_of_message ''uid=bob,ou=people'' [(''cn'', [''Bob'', ''Robert''])]) []
     = None"
  by (simp add: entry_eval Output_def)

end
